theory Spec2Isabelle
  imports Complex_Main
begin

section \<open>Job orchestration: the data model\<close>

text \<open>
  The job model (models/job.model.ts). \<open>JobStatus\<close> and \<open>JobType\<close> are the two
  string enums; \<open>IJob\<close> is the document interface. \<open>Schema.Types.Mixed\<close> values
  (payload, result) are opaque to the service, so they are a type parameter \<open>'m\<close>.
  A \<open>Date\<close> is a number of milliseconds. Optional fields (\<open>undefined\<close> or
  \<open>null\<close>) are \<open>option\<close>s. \<open>priority\<close> is a \<open>Number\<close>, which need not be whole:
  a rational. Only the fields the interface declares are modelled.
\<close>

datatype JobStatus = PENDING | PROCESSING | COMPLETED | FAILED

datatype JobType = CODE_EXECUTION | FILE_PROCESSING | DATA_ANALYSIS | EXPORT

type_synonym Date = nat

record 'm IJob =
  jobId :: string
  type :: JobType
  status :: JobStatus
  payload :: 'm
  result :: "'m option"
  error :: "string option"
  attempts :: nat
  maxAttempts :: nat
  priority :: rat
  idempotencyKey :: "string option"
  userId :: string
  createdAt :: Date
  startedAt :: "Date option"
  completedAt :: "Date option"

text \<open>
  Exceptions as values. \<open>ApiError\<close> is the service's own error class
  (middleware/error.middleware.ts) with its status code and message. The others are
  what the two collaborators throw: the document store on a schema validator
  (\<open>priority\<close> has \<open>min: 1, max: 10\<close>) or on the unique index of \<open>jobId\<close>; the
  queue client on a priority that is not a whole number, when the broker cannot take a
  command, and on the removal of a job that a worker holds.
\<close>

datatype failure =
    ApiError nat string
  | ValidationError
  | DuplicateKey
  | InvalidPriority
  | QueueUnavailable
  | JobLocked

section \<open>The job collection\<close>

text \<open>
  The collection is the list of its documents in insertion order. \<open>findOne\<close> returns
  the first document that matches the query, together with its position, which stands
  for the document's identity when it is saved back: \<open>save\<close> writes a document at the
  position \<open>findOne\<close> gave, and \<open>findOneAndUpdate\<close> changes the first match, or
  nothing when there is none. \<open>Job_create\<close> runs the schema's validator on
  \<open>priority\<close> (\<open>min: 1, max: 10\<close>), then inserts unless the unique index on
  \<open>jobId\<close> forbids it.
\<close>

fun findOne :: "('a \<Rightarrow> bool) \<Rightarrow> 'a list \<Rightarrow> (nat \<times> 'a) option" where
  "findOne q [] = None"
| "findOne q (d # ds) =
     (if q d then Some (0, d)
      else (case findOne q ds of None \<Rightarrow> None | Some (i, e) \<Rightarrow> Some (Suc i, e)))"

definition save :: "'a list \<Rightarrow> nat \<Rightarrow> 'a \<Rightarrow> 'a list" where
  "save store i doc = store[i := doc]"

definition findOneAndUpdate :: "('a \<Rightarrow> bool) \<Rightarrow> ('a \<Rightarrow> 'a) \<Rightarrow> 'a list \<Rightarrow> 'a list" where
  "findOneAndUpdate q upd store =
     (case findOne q store of None \<Rightarrow> store | Some (i, d) \<Rightarrow> save store i (upd d))"

definition Job_create :: "'m IJob list \<Rightarrow> 'm IJob \<Rightarrow> failure + ('m IJob \<times> 'm IJob list)" where
  "Job_create store doc =
     (if priority doc < 1 \<or> 10 < priority doc then Inl ValidationError
      else if jobId doc \<in> set (map jobId store) then Inl DuplicateKey
      else Inr (doc, store @ [doc]))"

section \<open>The dispatch queue, as the service and the worker see it\<close>

text \<open>
  queues/job.queue.ts. \<open>JobData\<close> is the interface of the same name. A
  \<open>QueueEntry\<close> is what \<open>jobQueue.add(name, data, { priority, jobId })\<close> hands to
  the broker: the job's own id is the broker's job id. The broker itself is a library
  outside the repository; the model keeps of it what the repository's calls depend on:
  \<^item> \<open>ready\<close>: whether it takes commands at all (a command on a broker that is not
    ready throws);
  \<^item> \<open>entries\<close>: the dispatch entries that wait to be claimed, in the order they were
    accepted;
  \<^item> \<open>active\<close>: the ids of the jobs a worker has claimed and holds;
  \<^item> \<open>kept\<close>: the ids of the finished jobs it still keeps (the queue is set up with
    \<open>removeOnComplete: { count: 100 }\<close> and \<open>removeOnFail: { count: 50 }\<close>).

  The order in which the broker serves the waiting entries is not part of the
  repository and is not modelled.
\<close>

record 'm JobData =
  data_jobId :: string
  data_type :: JobType
  data_payload :: 'm
  data_userId :: string
  data_idempotencyKey :: "string option"

record 'm QueueEntry =
  name :: JobType
  data :: "'m JobData"
  opts_priority :: rat
  opts_jobId :: string

record 'm Queue =
  ready :: bool
  entries :: "'m QueueEntry list"
  active :: "string list"
  kept :: "string list"

definition defaultJobOptions_attempts :: nat where
  "defaultJobOptions_attempts = 3"

definition defaultJobOptions_backoff_delay :: nat where
  "defaultJobOptions_backoff_delay = 1000"

text \<open>The broker holds a job under an id: waiting, claimed, or finished and kept.\<close>

definition holds :: "'m Queue \<Rightarrow> string \<Rightarrow> bool" where
  "holds q jid =
     (jid \<in> set (map opts_jobId (entries q)) \<or> jid \<in> set (active q) \<or> jid \<in> set (kept q))"

definition whole :: "rat \<Rightarrow> bool" where
  "whole p = (of_int \<lfloor>p\<rfloor> = p)"

text \<open>
  \<open>jobQueue.add\<close>. The client refuses a priority that is not a whole number before it
  talks to the broker. An add under an id the broker still holds adds nothing: the
  call returns the job object all the same. The schema keeps priorities between 1 and
  10, so the client's upper limit on priorities is never met and is left out.
\<close>

definition Queue_add ::
  "'m Queue \<Rightarrow> JobType \<Rightarrow> 'm JobData \<Rightarrow> rat \<Rightarrow> string \<Rightarrow> failure + ('m QueueEntry \<times> 'm Queue)" where
  "Queue_add q nm dat prio jid =
     (let e = \<lparr>name = nm, data = dat, opts_priority = prio, opts_jobId = jid\<rparr>
      in if \<not> whole prio then Inl InvalidPriority
         else if \<not> ready q then Inl QueueUnavailable
         else if holds q jid then Inr (e, q)
         else Inr (e, q\<lparr>entries := entries q @ [e]\<rparr>))"

text \<open>
  \<open>jobQueue.getJob(jobId)\<close> followed by \<open>bullJob.remove()\<close> when a job was found. A
  job that a worker holds cannot be removed: the call throws.
\<close>

definition Queue_remove :: "'m Queue \<Rightarrow> string \<Rightarrow> failure + 'm Queue" where
  "Queue_remove q jid =
     (if \<not> ready q then Inl QueueUnavailable
      else if jid \<in> set (active q) then Inl JobLocked
      else Inr (q\<lparr>entries := filter (\<lambda>e. opts_jobId e \<noteq> jid) (entries q),
                 kept := filter (\<lambda>k. k \<noteq> jid) (kept q)\<rparr>))"

text \<open>
  \<open>addJob(data, priority = 5)\<close>: the default applies when the argument is
  \<open>undefined\<close>; the result is \<open>job.id || data.jobId\<close>.
\<close>

definition default_priority :: "rat option \<Rightarrow> rat" where
  "default_priority prio = (case prio of None \<Rightarrow> 5 | Some p \<Rightarrow> p)"

definition addJob :: "'m Queue \<Rightarrow> 'm JobData \<Rightarrow> rat option \<Rightarrow> failure + (string \<times> 'm Queue)" where
  "addJob q dat prio =
     (case Queue_add q (data_type dat) dat (default_priority prio) (data_jobId dat) of
        Inl e \<Rightarrow> Inl e
      | Inr (job, q') \<Rightarrow>
          Inr (if opts_jobId job \<noteq> [] then opts_jobId job else data_jobId dat, q'))"

section \<open>JobService\<close>

text \<open>
  services/job.service.ts. The service works on the collection and the queue, so each
  method takes the pair of them and returns it with its result; a thrown exception is
  \<open>Inl\<close>, and the state returned with it is the one the exception leaves behind.
  \<open>uuidv4()\<close> and \<open>new Date()\<close> are arguments.
\<close>

record 'm sys =
  jobStore :: "'m IJob list"
  jobQueue :: "'m Queue"

record 'm CreateJobInput =
  input_type :: JobType
  input_payload :: 'm
  input_priority :: "rat option"
  input_idempotencyKey :: "string option"

text \<open>JavaScript truthiness of an optional string and \<open>x || d\<close> on optional numbers.\<close>

definition truthy :: "string option \<Rightarrow> bool" where
  "truthy k = (case k of None \<Rightarrow> False | Some s \<Rightarrow> s \<noteq> [])"

definition or_number :: "rat option \<Rightarrow> rat \<Rightarrow> rat" where
  "or_number x d = (case x of None \<Rightarrow> d | Some n \<Rightarrow> if n = 0 then d else n)"

definition or_nat :: "nat option \<Rightarrow> nat \<Rightarrow> nat" where
  "or_nat x d = (case x of None \<Rightarrow> d | Some n \<Rightarrow> if n = 0 then d else n)"

text \<open>The document \<open>create\<close> passes to \<open>Job.create\<close>, with the schema's defaults filled in.\<close>

definition newJob :: "string \<Rightarrow> 'm CreateJobInput \<Rightarrow> string \<Rightarrow> Date \<Rightarrow> 'm IJob" where
  "newJob uid input uuid now =
     \<lparr>jobId = uuid, type = input_type input, status = PENDING,
      payload = input_payload input, result = None, error = None,
      attempts = 0, maxAttempts = 3, priority = or_number (input_priority input) 5,
      idempotencyKey = input_idempotencyKey input, userId = uid,
      createdAt = now, startedAt = None, completedAt = None\<rparr>"

definition create ::
  "'m sys \<Rightarrow> string \<Rightarrow> 'm CreateJobInput \<Rightarrow> string \<Rightarrow> Date \<Rightarrow> (failure + ('m IJob \<times> bool)) \<times> 'm sys" where
  "create s uid input uuid now =
     (case (if truthy (input_idempotencyKey input)
            then findOne (\<lambda>r. idempotencyKey r = input_idempotencyKey input \<and> userId r = uid) (jobStore s)
            else None) of
        Some (i, existing) \<Rightarrow> (Inr (existing, True), s)
      | None \<Rightarrow>
          (case Job_create (jobStore s) (newJob uid input uuid now) of
             Inl e \<Rightarrow> (Inl e, s)
           | Inr (job, store') \<Rightarrow>
               (case addJob (jobQueue s)
                       \<lparr>data_jobId = uuid, data_type = input_type input,
                        data_payload = input_payload input, data_userId = uid,
                        data_idempotencyKey = input_idempotencyKey input\<rparr>
                       (input_priority input) of
                  Inl e \<Rightarrow> (Inl e, s\<lparr>jobStore := store'\<rparr>)
                | Inr (qid, q') \<Rightarrow> (Inr (job, False), \<lparr>jobStore = store', jobQueue = q'\<rparr>))))"

definition getById :: "'m IJob list \<Rightarrow> string \<Rightarrow> string \<Rightarrow> failure + 'm IJob" where
  "getById store jid uid =
     (case findOne (\<lambda>r. jobId r = jid \<and> userId r = uid) store of
        None \<Rightarrow> Inl (ApiError 404 ''Job not found'')
      | Some (i, job) \<Rightarrow> Inr job)"

text \<open>
  \<open>getAllForUser\<close>. \<open>limit\<close> and \<open>offset\<close> are natural numbers here: what a negative
  \<open>skip\<close> or \<open>limit\<close> does is decided by the database driver, not by the repository.
  \<open>sort({ createdAt: -1 })\<close> is a sort on the negated key; the order among documents
  with the same \<open>createdAt\<close> is the database's choice, here insertion order.
\<close>

record ListOptions =
  opt_status :: "JobStatus option"
  opt_type :: "JobType option"
  opt_limit :: "nat option"
  opt_offset :: "nat option"

record Pagination =
  pg_total :: nat
  pg_limit :: nat
  pg_offset :: nat
  hasMore :: bool

record 'm JobPage =
  jobs :: "'m IJob list"
  pagination :: Pagination

definition matches :: "string \<Rightarrow> ListOptions \<Rightarrow> 'm IJob \<Rightarrow> bool" where
  "matches uid options r =
     (userId r = uid
      \<and> (case opt_status options of None \<Rightarrow> True | Some st \<Rightarrow> status r = st)
      \<and> (case opt_type options of None \<Rightarrow> True | Some ty \<Rightarrow> type r = ty))"

definition sortByCreatedAtDesc :: "'m IJob list \<Rightarrow> 'm IJob list" where
  "sortByCreatedAtDesc ds = sort_key (\<lambda>r. - int (createdAt r)) ds"

definition getAllForUser :: "'m IJob list \<Rightarrow> string \<Rightarrow> ListOptions \<Rightarrow> 'm JobPage" where
  "getAllForUser store uid options =
     (let lim = min (or_nat (opt_limit options) 20) 100;
          off = or_nat (opt_offset options) 0;
          found = take lim (drop off (sortByCreatedAtDesc (filter (matches uid options) store)));
          total = length (filter (matches uid options) store)
      in \<lparr>jobs = found,
          pagination = \<lparr>pg_total = total, pg_limit = lim, pg_offset = off,
                        hasMore = (off + length found < total)\<rparr>\<rparr>)"

definition cancel :: "'m sys \<Rightarrow> string \<Rightarrow> string \<Rightarrow> Date \<Rightarrow> (failure + string) \<times> 'm sys" where
  "cancel s jid uid now =
     (case findOne (\<lambda>r. jobId r = jid \<and> userId r = uid) (jobStore s) of
        None \<Rightarrow> (Inl (ApiError 404 ''Job not found''), s)
      | Some (i, job) \<Rightarrow>
          if status job \<noteq> PENDING then (Inl (ApiError 400 ''Can only cancel pending jobs''), s)
          else (let q' = (case Queue_remove (jobQueue s) jid of Inl e \<Rightarrow> jobQueue s | Inr q \<Rightarrow> q);
                    job' = job\<lparr>status := FAILED, error := Some ''Cancelled by user'',
                               completedAt := Some now\<rparr>
                in (Inr ''Job cancelled'', \<lparr>jobStore = save (jobStore s) i job', jobQueue = q'\<rparr>)))"

definition retry :: "'m sys \<Rightarrow> string \<Rightarrow> string \<Rightarrow> (failure + 'm IJob) \<times> 'm sys" where
  "retry s jid uid =
     (case findOne (\<lambda>r. jobId r = jid \<and> userId r = uid) (jobStore s) of
        None \<Rightarrow> (Inl (ApiError 404 ''Job not found''), s)
      | Some (i, job) \<Rightarrow>
          if status job \<noteq> FAILED then (Inl (ApiError 400 ''Can only retry failed jobs''), s)
          else (let job' = job\<lparr>status := PENDING, error := None, result := None, attempts := 0,
                               startedAt := None, completedAt := None\<rparr>;
                    store' = save (jobStore s) i job'
                in (case addJob (jobQueue s)
                           \<lparr>data_jobId = jobId job', data_type = type job',
                            data_payload = payload job', data_userId = uid,
                            data_idempotencyKey = idempotencyKey job'\<rparr>
                           (Some (priority job')) of
                      Inl e \<Rightarrow> (Inl e, s\<lparr>jobStore := store'\<rparr>)
                    | Inr (qid, q') \<Rightarrow> (Inr job', \<lparr>jobStore = store', jobQueue = q'\<rparr>))))"

section \<open>The worker\<close>

text \<open>
  workers/job.worker.ts. A \<open>BullJob\<close> is the job object the broker passes to the
  processor: its data and the number of attempts already made. \<open>simulateWork\<close> is
  random, so its outcome is an argument: it returns a result or throws an error with a
  message. \<open>processJob\<close> writes the claim, runs the work and, when it returned, writes
  the completion; when it threw, the exception is passed on and the worker's
  \<open>failed\<close> listener writes the failure. The listener takes no count of attempts:
  its comment says that it runs, and updates the document, on every failure.
\<close>

record 'm BullJob =
  job_data :: "'m JobData"
  attemptsMade :: nat

datatype 'm work = Returns 'm | Throws string

definition processJob_claim :: "'m IJob list \<Rightarrow> 'm BullJob \<Rightarrow> Date \<Rightarrow> 'm IJob list" where
  "processJob_claim store job now =
     findOneAndUpdate (\<lambda>r. jobId r = data_jobId (job_data job))
       (\<lambda>r. r\<lparr>status := PROCESSING, startedAt := Some now, attempts := attemptsMade job + 1\<rparr>) store"

definition processJob_complete :: "'m IJob list \<Rightarrow> 'm BullJob \<Rightarrow> 'm \<Rightarrow> Date \<Rightarrow> 'm IJob list" where
  "processJob_complete store job res now =
     findOneAndUpdate (\<lambda>r. jobId r = data_jobId (job_data job))
       (\<lambda>r. r\<lparr>status := COMPLETED, result := Some res, completedAt := Some now\<rparr>) store"

definition processJob ::
  "'m IJob list \<Rightarrow> 'm BullJob \<Rightarrow> 'm work \<Rightarrow> Date \<Rightarrow> Date \<Rightarrow> (string + 'm) \<times> 'm IJob list" where
  "processJob store job w t1 t2 =
     (let store1 = processJob_claim store job t1
      in (case w of
            Returns res \<Rightarrow> (Inr res, processJob_complete store1 job res t2)
          | Throws msg \<Rightarrow> (Inl msg, store1)))"

definition on_failed :: "'m IJob list \<Rightarrow> 'm BullJob option \<Rightarrow> string \<Rightarrow> Date \<Rightarrow> 'm IJob list" where
  "on_failed store job msg now =
     (case job of
        None \<Rightarrow> store
      | Some j \<Rightarrow>
          findOneAndUpdate (\<lambda>r. jobId r = data_jobId (job_data j))
            (\<lambda>r. r\<lparr>status := FAILED, error := Some msg, completedAt := Some now\<rparr>) store)"

text \<open>One attempt of the worker on a claimed job: the processor, then the listener if it threw.\<close>

definition attempt :: "'m IJob list \<Rightarrow> 'm BullJob \<Rightarrow> 'm work \<Rightarrow> Date \<Rightarrow> Date \<Rightarrow> 'm IJob list" where
  "attempt store job w t1 t2 =
     (case processJob store job w t1 t2 of
        (Inr res, store') \<Rightarrow> store'
      | (Inl msg, store') \<Rightarrow> on_failed store' (Some job) msg t2)"

section \<open>Runs of the system\<close>

text \<open>
  The service's methods and the worker's three writes, as events on the state. The
  worker's writes are separate events, since the service can run between them. The
  broker decides which job a worker gets and when; all that is taken from it is that
  it passes a job to the processor only while its \<open>attemptsMade\<close> is below the
  queue's \<open>attempts\<close> option, and that it may change its own entries at any time.
\<close>

datatype 'm event =
    Submit string "'m CreateJobInput" string Date
  | Cancel string string Date
  | Retry string string
  | Claim "'m BullJob" Date
  | Complete "'m BullJob" 'm Date
  | Fail "'m BullJob" string Date
  | Broker "'m Queue"

fun step :: "'m sys \<Rightarrow> 'm event \<Rightarrow> 'm sys" where
  "step s (Submit uid input uuid now) = snd (create s uid input uuid now)"
| "step s (Cancel jid uid now) = snd (cancel s jid uid now)"
| "step s (Retry jid uid) = snd (retry s jid uid)"
| "step s (Claim job now) = s\<lparr>jobStore := processJob_claim (jobStore s) job now\<rparr>"
| "step s (Complete job res now) = s\<lparr>jobStore := processJob_complete (jobStore s) job res now\<rparr>"
| "step s (Fail job msg now) = s\<lparr>jobStore := on_failed (jobStore s) (Some job) msg now\<rparr>"
| "step s (Broker q) = s\<lparr>jobQueue := q\<rparr>"

fun admitted :: "'m event \<Rightarrow> bool" where
  "admitted (Claim job now) = (attemptsMade job < defaultJobOptions_attempts)"
| "admitted e = True"

definition run :: "'m sys \<Rightarrow> 'm event list \<Rightarrow> 'm sys" where
  "run s es = foldl step s es"

definition initial :: "'m Queue \<Rightarrow> 'm sys" where
  "initial q = \<lparr>jobStore = [], jobQueue = q\<rparr>"

text \<open>
  The bound the worker and the service keep on every document: \<open>maxAttempts\<close> is the
  3 that \<open>create\<close> writes, and \<open>attempts\<close> does not pass it.
\<close>

definition attempts_bounded :: "'m IJob \<Rightarrow> bool" where
  "attempts_bounded r = (maxAttempts r = 3 \<and> attempts r \<le> 3)"

section \<open>Example data\<close>

text \<open>
  Concrete values for the instances below: a pending export job of priority 8 owned
  by alice, a submission of the same job with a given idempotency key, a broker that
  takes commands and one that does not, and the job object of a first attempt.
\<close>

definition alice_job :: "string option \<Rightarrow> string IJob" where
  "alice_job key =
     \<lparr>jobId = ''job-1'', type = EXPORT, status = PENDING, payload = ''a=1'', result = None,
      error = None, attempts = 0, maxAttempts = 3, priority = 8, idempotencyKey = key,
      userId = ''alice'', createdAt = 10, startedAt = None, completedAt = None\<rparr>"

definition export_input :: "string option \<Rightarrow> string CreateJobInput" where
  "export_input key =
     \<lparr>input_type = EXPORT, input_payload = ''a=1'', input_priority = Some 8,
      input_idempotencyKey = key\<rparr>"

definition broker_up :: "string Queue" where
  "broker_up = \<lparr>ready = True, entries = [], active = [], kept = []\<rparr>"

definition broker_down :: "string Queue" where
  "broker_down = \<lparr>ready = False, entries = [], active = [], kept = []\<rparr>"

definition bull_job :: "nat \<Rightarrow> string BullJob" where
  "bull_job n =
     \<lparr>job_data = \<lparr>data_jobId = ''job-1'', data_type = EXPORT, data_payload = ''a=1'',
                  data_userId = ''alice'', data_idempotencyKey = None\<rparr>,
      attemptsMade = n\<rparr>"

definition no_options :: ListOptions where
  "no_options = \<lparr>opt_status = None, opt_type = None, opt_limit = None, opt_offset = None\<rparr>"

section \<open>Facts about the collection\<close>

lemma findOne_None_iff: "findOne q ds = None \<longleftrightarrow> (\<forall>d \<in> set ds. \<not> q d)"
  by (induction ds) (auto split: option.splits)

lemma findOne_SomeD:
  "findOne q ds = Some (i, d) \<Longrightarrow> i < length ds \<and> ds ! i = d \<and> q d"
proof (induction ds arbitrary: i)
  case Nil
  then show ?case by simp
next
  case (Cons a ds)
  then show ?case
    by (auto split: if_splits option.splits)
qed

lemma findOne_mem: "findOne q ds = Some (i, d) \<Longrightarrow> d \<in> set ds"
  using findOne_SomeD [of q ds i d] by (auto simp: in_set_conv_nth)

lemma findOne_Some_ex: "\<exists>d \<in> set ds. q d \<Longrightarrow> \<exists>i d. findOne q ds = Some (i, d)"
  using findOne_None_iff [of q ds] by (cases "findOne q ds") auto

text \<open>A document saved back with the queried fields unchanged is found again, at its place.\<close>

lemma findOne_save:
  "findOne q ds = Some (i, d) \<Longrightarrow> q d' \<Longrightarrow> findOne q (save ds i d') = Some (i, d')"
proof (induction ds arbitrary: i)
  case Nil
  then show ?case by simp
next
  case (Cons a ds)
  show ?case
  proof (cases "q a")
    case True
    with Cons.prems show ?thesis by (simp add: save_def)
  next
    case False
    with Cons.prems obtain j where j: "findOne q ds = Some (j, d)" and i: "i = Suc j"
      by (auto split: option.splits)
    from Cons.IH [OF j Cons.prems(2)] False i show ?thesis
      by (simp add: save_def)
  qed
qed

text \<open>An inserted document is found only when no earlier one matches.\<close>

lemma findOne_snoc:
  "findOne q (ds @ [d]) =
     (case findOne q ds of Some x \<Rightarrow> Some x
      | None \<Rightarrow> if q d then Some (length ds, d) else None)"
  by (induction ds) (auto split: option.splits)

lemma findOneAndUpdate_found:
  "findOne q store = Some (i, d) \<Longrightarrow> findOneAndUpdate q upd store = store[i := upd d]"
  by (simp add: findOneAndUpdate_def save_def)

lemma findOneAndUpdate_pres:
  assumes "\<forall>d \<in> set store. P d" and "\<And>d. P d \<Longrightarrow> P (upd d)"
  shows "\<forall>d \<in> set (findOneAndUpdate q upd store). P d"
proof (cases "findOne q store")
  case None
  then show ?thesis using assms(1) by (simp add: findOneAndUpdate_def)
next
  case (Some a)
  obtain i d where a: "a = (i, d)" by (cases a)
  from Some a have "d \<in> set store" by (auto dest: findOne_mem)
  with assms have "P (upd d)" by blast
  moreover have "set (store[i := upd d]) \<subseteq> insert (upd d) (set store)"
    by (rule set_update_subset_insert)
  ultimately show ?thesis
    using assms(1) Some a by (auto simp: findOneAndUpdate_def save_def)
qed

lemma getById_Inr_iff:
  "getById store jid uid = Inr job \<longleftrightarrow>
     (\<exists>i. findOne (\<lambda>r. jobId r = jid \<and> userId r = uid) store = Some (i, job))"
  by (auto simp: getById_def split: option.splits)

lemma getById_save:
  assumes f: "findOne (\<lambda>r. jobId r = jid \<and> userId r = uid) store = Some (i, job)"
      and same: "jobId job' = jobId job" "userId job' = userId job"
  shows "getById (save store i job') jid uid = Inr job'"
proof -
  have "jobId job = jid \<and> userId job = uid"
    using findOne_SomeD [OF f] by simp
  with same have q': "jobId job' = jid \<and> userId job' = uid" by simp
  have "findOne (\<lambda>r. jobId r = jid \<and> userId r = uid) (save store i job') = Some (i, job')"
    by (rule findOne_save) (rule f, rule q')
  then show ?thesis
    by (simp add: getById_def)
qed

section \<open>Facts about the queue\<close>

text \<open>What \<open>addJob\<close> comes to: the two refusals, the add that adds nothing, the add.\<close>

lemma addJob_cases:
  "addJob q dat prio =
     (if \<not> whole (default_priority prio) then Inl InvalidPriority
      else if \<not> ready q then Inl QueueUnavailable
      else if holds q (data_jobId dat) then Inr (data_jobId dat, q)
      else Inr (data_jobId dat,
                q\<lparr>entries := entries q @
                     [\<lparr>name = data_type dat, data = dat,
                       opts_priority = default_priority prio, opts_jobId = data_jobId dat\<rparr>]\<rparr>))"
  by (simp add: addJob_def Queue_add_def holds_def whole_def default_priority_def Let_def)

lemma half_not_whole: "\<not> whole (11 / 2)"
proof -
  have "\<lfloor>(11::rat) / 2\<rfloor> = 5"
    by (rule floor_unique) simp_all
  then show ?thesis
    by (simp add: whole_def)
qed

lemma addJob_Inr_ready: "addJob q dat prio = Inr (qid, q') \<Longrightarrow> ready q"
  by (simp add: addJob_cases split: if_splits)

lemma addJob_Inr_entries:
  "addJob q dat prio = Inr (qid, q') \<Longrightarrow> \<not> holds q (data_jobId dat) \<Longrightarrow>
     entries q' = entries q @
        [\<lparr>name = data_type dat, data = dat,
          opts_priority = default_priority prio, opts_jobId = data_jobId dat\<rparr>]"
  by (auto simp: addJob_cases split: if_splits)


text \<open>What \<open>create\<close> comes to when the idempotency guard finds nothing.\<close>

lemma create_miss:
  assumes "\<not> (truthy (input_idempotencyKey input)
         \<and> (\<exists>r \<in> set (jobStore s). idempotencyKey r = input_idempotencyKey input \<and> userId r = uid))"
  shows "create s uid input uuid now =
     (case Job_create (jobStore s) (newJob uid input uuid now) of
        Inl e \<Rightarrow> (Inl e, s)
      | Inr (job, store') \<Rightarrow>
          (case addJob (jobQueue s)
                  \<lparr>data_jobId = uuid, data_type = input_type input,
                   data_payload = input_payload input, data_userId = uid,
                   data_idempotencyKey = input_idempotencyKey input\<rparr>
                  (input_priority input) of
             Inl e \<Rightarrow> (Inl e, s\<lparr>jobStore := store'\<rparr>)
           | Inr (qid, q') \<Rightarrow> (Inr (job, False), \<lparr>jobStore = store', jobQueue = q'\<rparr>)))"
proof -
  have "(if truthy (input_idempotencyKey input)
         then findOne (\<lambda>r. idempotencyKey r = input_idempotencyKey input \<and> userId r = uid) (jobStore s)
         else None) = None"
    using assms by (auto simp: findOne_None_iff)
  then show ?thesis
    by (simp add: create_def)
qed

text \<open>A submission that is no duplicate has written its document and got its add through.\<close>

lemma create_new:
  assumes "create s uid input uuid now = (Inr (job, False), s')"
  shows "job = newJob uid input uuid now \<and> jobStore s' = jobStore s @ [job]
       \<and> (\<exists>qid. addJob (jobQueue s)
                  \<lparr>data_jobId = uuid, data_type = input_type input,
                   data_payload = input_payload input, data_userId = uid,
                   data_idempotencyKey = input_idempotencyKey input\<rparr>
                  (input_priority input) = Inr (qid, jobQueue s'))"
  using assms
  by (auto simp: create_def Job_create_def
           split: if_splits option.splits sum.splits prod.splits)

section \<open>Submission and the idempotency key\<close>

text \<open>
  C1. For every owner and every non-empty idempotency key: if the collection holds a
  job with that owner and key, in any status, \<open>create\<close> with that key returns such a
  job with \<open>duplicate = true\<close> and changes neither the collection nor the queue; and
  whenever a \<open>create\<close> with the key returned a job, a second \<open>create\<close> of the same owner
  with the same key returns that very job (so the same \<open>jobId\<close>) with
  \<open>duplicate = true\<close>, again changing nothing. The guard is
  \<open>if (input.idempotencyKey)\<close>, which an empty key does not pass.
\<close>

theorem create_idempotent:
  assumes key: "input_idempotencyKey input = Some k" and nonempty: "k \<noteq> []"
  shows "((\<exists>r \<in> set (jobStore s). idempotencyKey r = Some k \<and> userId r = uid) \<longrightarrow>
            (\<exists>r \<in> set (jobStore s). idempotencyKey r = Some k \<and> userId r = uid
               \<and> create s uid input uuid now = (Inr (r, True), s)))
       \<and> (\<forall>job dup s'. create s uid input uuid now = (Inr (job, dup), s') \<longrightarrow>
            (\<forall>input2 uuid2 now2. input_idempotencyKey input2 = Some k \<longrightarrow>
               create s' uid input2 uuid2 now2 = (Inr (job, True), s')))"
proof -
  let ?q = "\<lambda>r. idempotencyKey r = Some k \<and> userId r = uid"
  have tr: "truthy (Some k)"
    using nonempty by (simp add: truthy_def)
  have hit: "\<exists>r \<in> set (jobStore s). ?q r \<and> create s uid input uuid now = (Inr (r, True), s)"
    if "\<exists>r \<in> set (jobStore s). ?q r"
  proof -
    from that obtain i r where f: "findOne ?q (jobStore s) = Some (i, r)"
      using findOne_Some_ex [of "jobStore s" ?q] by blast
    have "r \<in> set (jobStore s)" and "?q r"
      using findOne_mem [OF f] findOne_SomeD [OF f] by auto
    moreover have "create s uid input uuid now = (Inr (r, True), s)"
      using f tr by (simp add: create_def key)
    ultimately show ?thesis by blast
  qed
  have again: "create s' uid input2 uuid2 now2 = (Inr (job, True), s')"
    if c: "create s uid input uuid now = (Inr (job, dup), s')"
      and key2: "input_idempotencyKey input2 = Some k"
    for job dup s' uuid2 now2 and input2 :: "'a CreateJobInput"
  proof -
    have "\<exists>i. findOne ?q (jobStore s') = Some (i, job)"
    proof (cases "findOne ?q (jobStore s)")
      case (Some a)
      then show ?thesis using c tr
        by (cases a) (auto simp: create_def key)
    next
      case None
      with c tr have "dup = False"
        by (auto simp: create_def key split: sum.splits prod.splits)
      with c have "job = newJob uid input uuid now" and "jobStore s' = jobStore s @ [job]"
        using create_new [of s uid input uuid now job s'] by simp_all
      with None show ?thesis
        by (simp add: findOne_snoc newJob_def key)
    qed
    then show ?thesis
      using tr by (auto simp: create_def key2)
  qed
  from hit again show ?thesis by blast
qed

text \<open>
  An instance: alice's job with key \<open>k1\<close> is in the collection, and she submits with
  \<open>k1\<close> again; and two submissions with \<open>k1\<close> in a row on an empty collection.
\<close>

theorem create_idempotent_witness:
  "create \<lparr>jobStore = [alice_job (Some ''k1'')], jobQueue = broker_up\<rparr> ''alice''
       (export_input (Some ''k1'')) ''job-2'' 11
     = (Inr (alice_job (Some ''k1''), True),
        \<lparr>jobStore = [alice_job (Some ''k1'')], jobQueue = broker_up\<rparr>)
   \<and> fst (create (snd (create (initial broker_up) ''alice'' (export_input (Some ''k1'')) ''job-1'' 10))
             ''alice'' (export_input (Some ''k1'')) ''job-2'' 11)
     = Inr (newJob ''alice'' (export_input (Some ''k1'')) ''job-1'' 10, True)"
proof -
  let ?s = "\<lparr>jobStore = [alice_job (Some ''k1'')], jobQueue = broker_up\<rparr>"
  let ?input = "export_input (Some ''k1'')"
  let ?first = "create (initial broker_up) ''alice'' ?input ''job-1'' 10"
  have key: "input_idempotencyKey ?input = Some ''k1''"
    by (simp add: export_input_def)
  have nonempty: "''k1'' \<noteq> []" by simp
  have present: "\<exists>r \<in> set (jobStore ?s). idempotencyKey r = Some ''k1'' \<and> userId r = ''alice''"
    by (simp add: alice_job_def)
  from create_idempotent [OF key nonempty, of ?s "''alice''" "''job-2''" 11] present
  have "\<exists>r \<in> set (jobStore ?s). create ?s ''alice'' ?input ''job-2'' 11 = (Inr (r, True), ?s)"
    by blast
  then have one: "create ?s ''alice'' ?input ''job-2'' 11 = (Inr (alice_job (Some ''k1''), True), ?s)"
    by simp
  have first: "?first = (Inr (newJob ''alice'' ?input ''job-1'' 10, False), snd ?first)"
    by (simp add: create_def initial_def broker_up_def export_input_def truthy_def
          Job_create_def newJob_def or_number_def addJob_def Queue_add_def holds_def whole_def default_priority_def Let_def)
  from create_idempotent [OF key nonempty, of "initial broker_up" "''alice''" "''job-1''" 10] first key
  have "create (snd ?first) ''alice'' ?input ''job-2'' 11
          = (Inr (newJob ''alice'' ?input ''job-1'' 10, True), snd ?first)"
    by blast
  with one show ?thesis by simp
qed

text \<open>
  With the empty key the guard is skipped. Alice submits twice with the empty key on an
  empty collection: the first submission writes a job with that key, and the second is
  no duplicate of it; it writes and enqueues a second job, with another \<open>jobId\<close>.
\<close>

theorem create_empty_key_counterexample:
  "fst (create (initial broker_up) ''alice'' (export_input (Some [])) ''job-1'' 10)
     = Inr (newJob ''alice'' (export_input (Some [])) ''job-1'' 10, False)
   \<and> idempotencyKey (newJob ''alice'' (export_input (Some [])) ''job-1'' 10) = Some []
   \<and> userId (newJob ''alice'' (export_input (Some [])) ''job-1'' 10) = ''alice''
   \<and> fst (create (snd (create (initial broker_up) ''alice'' (export_input (Some [])) ''job-1'' 10))
             ''alice'' (export_input (Some [])) ''job-2'' 11)
     = Inr (newJob ''alice'' (export_input (Some [])) ''job-2'' 11, False)
   \<and> map jobId (jobStore (snd (create
         (snd (create (initial broker_up) ''alice'' (export_input (Some [])) ''job-1'' 10))
         ''alice'' (export_input (Some [])) ''job-2'' 11)))
     = [''job-1'', ''job-2'']
   \<and> map opts_jobId (entries (jobQueue (snd (create
         (snd (create (initial broker_up) ''alice'' (export_input (Some [])) ''job-1'' 10))
         ''alice'' (export_input (Some [])) ''job-2'' 11))))
     = [''job-1'', ''job-2'']"
  by (simp add: create_def truthy_def Job_create_def newJob_def or_number_def addJob_def
        Queue_add_def holds_def whole_def default_priority_def Let_def export_input_def broker_up_def initial_def)

section \<open>Submission when the queue refuses the entry\<close>

text \<open>
  C3. \<open>create\<close> writes the document first and enqueues second, and nothing undoes the
  write. For every submission without an idempotency hit whose document the collection
  accepts: if the queue refuses the entry, \<open>create\<close> fails with the queue's error and
  the new document stays in the collection, in status PENDING. That is so when the
  broker is not ready, and as well when the client refuses a priority that is not
  whole. And \<open>create\<close> returns a job with \<open>duplicate = false\<close> only when both the write
  and the enqueue were done: the broker was ready, the document is the last of the
  collection, and its entry the last of the queue (the id is new, so the broker holds
  no job under it).
\<close>

theorem create_enqueue_failure:
  "(\<not> (truthy (input_idempotencyKey input)
         \<and> (\<exists>r \<in> set (jobStore s). idempotencyKey r = input_idempotencyKey input \<and> userId r = uid))
     \<and> 1 \<le> or_number (input_priority input) 5 \<and> or_number (input_priority input) 5 \<le> 10
     \<and> uuid \<notin> set (map jobId (jobStore s))
     \<and> (\<not> ready (jobQueue s) \<or> \<not> whole (default_priority (input_priority input))) \<longrightarrow>
       create s uid input uuid now
         = (Inl (if whole (default_priority (input_priority input))
                 then QueueUnavailable else InvalidPriority),
            s\<lparr>jobStore := jobStore s @ [newJob uid input uuid now]\<rparr>)
       \<and> status (newJob uid input uuid now) = PENDING)
   \<and> (\<forall>job s'. create s uid input uuid now = (Inr (job, False), s') \<longrightarrow>
         ready (jobQueue s) \<and> jobStore s' = jobStore s @ [job]
         \<and> (\<not> holds (jobQueue s) uuid \<longrightarrow>
              (\<exists>e. entries (jobQueue s') = entries (jobQueue s) @ [e] \<and> opts_jobId e = jobId job)))"
proof -
  let ?q = "\<lambda>r. idempotencyKey r = input_idempotencyKey input \<and> userId r = uid"
  let ?dat = "\<lparr>data_jobId = uuid, data_type = input_type input,
               data_payload = input_payload input, data_userId = uid,
               data_idempotencyKey = input_idempotencyKey input\<rparr>"
  have orphan: "create s uid input uuid now
         = (Inl (if whole (default_priority (input_priority input))
                 then QueueUnavailable else InvalidPriority),
            s\<lparr>jobStore := jobStore s @ [newJob uid input uuid now]\<rparr>)"
    if a: "\<not> (truthy (input_idempotencyKey input) \<and> (\<exists>r \<in> set (jobStore s). ?q r))"
      and p: "1 \<le> or_number (input_priority input) 5" "or_number (input_priority input) 5 \<le> 10"
      and fresh: "uuid \<notin> set (map jobId (jobStore s))"
      and refused: "\<not> ready (jobQueue s) \<or> \<not> whole (default_priority (input_priority input))"
  proof -
    have w: "Job_create (jobStore s) (newJob uid input uuid now)
               = Inr (newJob uid input uuid now, jobStore s @ [newJob uid input uuid now])"
      using p fresh by (simp add: Job_create_def newJob_def)
    have "addJob (jobQueue s) ?dat (input_priority input)
            = Inl (if whole (default_priority (input_priority input))
                   then QueueUnavailable else InvalidPriority)"
      using refused by (auto simp: addJob_cases)
    then show ?thesis
      by (simp add: create_miss [OF a] w)
  qed
  have pending: "status (newJob uid input uuid now) = PENDING"
    by (simp add: newJob_def)
  have both: "ready (jobQueue s) \<and> jobStore s' = jobStore s @ [job]
         \<and> (\<not> holds (jobQueue s) uuid \<longrightarrow>
              (\<exists>e. entries (jobQueue s') = entries (jobQueue s) @ [e] \<and> opts_jobId e = jobId job))"
    if c: "create s uid input uuid now = (Inr (job, False), s')" for job s'
  proof -
    from create_new [OF c] obtain qid
      where j: "job = newJob uid input uuid now"
        and st: "jobStore s' = jobStore s @ [job]"
        and add: "addJob (jobQueue s) ?dat (input_priority input) = Inr (qid, jobQueue s')"
      by blast
    have "ready (jobQueue s)"
      by (rule addJob_Inr_ready [OF add])
    moreover have "\<exists>e. entries (jobQueue s') = entries (jobQueue s) @ [e] \<and> opts_jobId e = jobId job"
      if "\<not> holds (jobQueue s) uuid"
      using addJob_Inr_entries [OF add] that by (simp add: j newJob_def)
    ultimately show ?thesis
      using st by blast
  qed
  show ?thesis
    using orphan pending both by blast
qed

text \<open>
  An instance of each part: a submission to a broker that is down, one with the
  priority 11/2, and one to a broker that is up, all on an empty collection.
\<close>

theorem create_enqueue_failure_witness:
  "create (initial broker_down) ''alice'' (export_input None) ''job-1'' 10
     = (Inl QueueUnavailable,
        (initial broker_down)\<lparr>jobStore := [newJob ''alice'' (export_input None) ''job-1'' 10]\<rparr>)
   \<and> create (initial broker_up) ''alice''
        ((export_input None)\<lparr>input_priority := Some (11 / 2)\<rparr>) ''job-1'' 10
     = (Inl InvalidPriority,
        (initial broker_up)\<lparr>jobStore :=
           [newJob ''alice'' ((export_input None)\<lparr>input_priority := Some (11 / 2)\<rparr>) ''job-1'' 10]\<rparr>)
   \<and> status (newJob ''alice'' (export_input None) ''job-1'' 10) = PENDING
   \<and> ready (jobQueue (initial broker_up))
   \<and> jobStore (snd (create (initial broker_up) ''alice'' (export_input None) ''job-1'' 10))
       = [newJob ''alice'' (export_input None) ''job-1'' 10]
   \<and> map opts_jobId
        (entries (jobQueue (snd (create (initial broker_up) ''alice'' (export_input None) ''job-1'' 10))))
       = [''job-1'']"
proof -
  let ?input = "export_input None"
  let ?half = "(export_input None)\<lparr>input_priority := Some (11 / 2)\<rparr>"
  let ?job = "newJob ''alice'' ?input ''job-1'' 10"
  have pre: "\<not> (truthy (input_idempotencyKey ?input)
         \<and> (\<exists>r \<in> set (jobStore (initial broker_down)).
               idempotencyKey r = input_idempotencyKey ?input \<and> userId r = ''alice''))
     \<and> 1 \<le> or_number (input_priority ?input) 5 \<and> or_number (input_priority ?input) 5 \<le> 10
     \<and> ''job-1'' \<notin> set (map jobId (jobStore (initial broker_down)))
     \<and> (\<not> ready (jobQueue (initial broker_down)) \<or> \<not> whole (default_priority (input_priority ?input)))"
    by (simp add: export_input_def truthy_def or_number_def initial_def broker_down_def)
  have w8: "whole (default_priority (input_priority ?input))"
    by (simp add: export_input_def whole_def default_priority_def)
  from create_enqueue_failure [of ?input "initial broker_down" "''alice''" "''job-1''" 10,
         THEN conjunct1, THEN mp, OF pre] w8
  have down: "create (initial broker_down) ''alice'' ?input ''job-1'' 10
     = (Inl QueueUnavailable, (initial broker_down)\<lparr>jobStore := jobStore (initial broker_down) @ [?job]\<rparr>)
     \<and> status ?job = PENDING"
    by simp
  have pre2: "\<not> (truthy (input_idempotencyKey ?half)
         \<and> (\<exists>r \<in> set (jobStore (initial broker_up)).
               idempotencyKey r = input_idempotencyKey ?half \<and> userId r = ''alice''))
     \<and> 1 \<le> or_number (input_priority ?half) 5 \<and> or_number (input_priority ?half) 5 \<le> 10
     \<and> ''job-1'' \<notin> set (map jobId (jobStore (initial broker_up)))
     \<and> (\<not> ready (jobQueue (initial broker_up)) \<or> \<not> whole (default_priority (input_priority ?half)))"
    by (simp add: export_input_def truthy_def or_number_def initial_def broker_up_def
          default_priority_def half_not_whole)
  have w2: "\<not> whole (default_priority (input_priority ?half))"
    by (simp add: export_input_def default_priority_def half_not_whole)
  from create_enqueue_failure [of ?half "initial broker_up" "''alice''" "''job-1''" 10,
         THEN conjunct1, THEN mp, OF pre2] w2
  have half: "create (initial broker_up) ''alice'' ?half ''job-1'' 10
     = (Inl InvalidPriority,
        (initial broker_up)\<lparr>jobStore := jobStore (initial broker_up) @ [newJob ''alice'' ?half ''job-1'' 10]\<rparr>)"
    by simp
  let ?done = "create (initial broker_up) ''alice'' ?input ''job-1'' 10"
  have ok: "?done = (Inr (?job, False), snd ?done)"
    by (simp add: create_def initial_def broker_up_def export_input_def truthy_def
          Job_create_def newJob_def or_number_def addJob_def Queue_add_def holds_def whole_def
          default_priority_def Let_def)
  have free: "\<not> holds (jobQueue (initial broker_up)) ''job-1''"
    by (simp add: holds_def initial_def broker_up_def)
  from create_enqueue_failure [of ?input "initial broker_up" "''alice''" "''job-1''" 10,
         THEN conjunct2, THEN spec, THEN spec, THEN mp, OF ok] free
  obtain e where up: "ready (jobQueue (initial broker_up))"
      "jobStore (snd ?done) = jobStore (initial broker_up) @ [?job]"
      "entries (jobQueue (snd ?done)) = entries (jobQueue (initial broker_up)) @ [e]"
      "opts_jobId e = jobId ?job"
    by blast
  have "map opts_jobId (entries (jobQueue (snd ?done))) = [''job-1'']"
    using up(3,4) by (simp add: initial_def broker_up_def newJob_def)
  with down half up(1,2) show ?thesis
    by (simp add: initial_def)
qed

text \<open>
  The broker is down: the submission fails, and the collection, empty before, holds a
  PENDING job afterwards.
\<close>

theorem create_orphan_counterexample:
  "fst (create (initial broker_down) ''alice'' (export_input None) ''job-1'' 10)
     = Inl QueueUnavailable
   \<and> map status (jobStore (snd (create (initial broker_down) ''alice'' (export_input None) ''job-1'' 10)))
     = [PENDING]"
  by (simp add: create_def truthy_def Job_create_def newJob_def or_number_def addJob_def
        Queue_add_def holds_def whole_def default_priority_def Let_def export_input_def
        broker_down_def initial_def)

section \<open>Reading a job\<close>

text \<open>
  C9. \<open>getById\<close> looks the job up by id and owner together. For every job id and
  caller: when no job with that id belongs to the caller (there is none with that id,
  or every one with that id has another owner), the answer is the 404 error
  \<open>Job not found\<close>; and it is the answer the caller would get from the collection
  with every job of that id taken out, so the caller cannot tell another owner's job
  from a missing one.
\<close>

theorem getById_NotFound_for_non_owner:
  assumes "\<forall>r \<in> set store. jobId r = jid \<longrightarrow> userId r \<noteq> uid"
  shows "getById store jid uid = Inl (ApiError 404 ''Job not found'')
       \<and> getById store jid uid = getById (filter (\<lambda>r. jobId r \<noteq> jid) store) jid uid"
proof -
  have none: "findOne (\<lambda>r. jobId r = jid \<and> userId r = uid) store = None"
    using assms by (auto simp: findOne_None_iff)
  have none': "findOne (\<lambda>r. jobId r = jid \<and> userId r = uid) (filter (\<lambda>r. jobId r \<noteq> jid) store) = None"
    by (auto simp: findOne_None_iff)
  show ?thesis
    by (simp add: getById_def none none')
qed

text \<open>An instance: bob asks for alice's job.\<close>

theorem getById_NotFound_for_non_owner_witness:
  "getById [alice_job None] ''job-1'' ''bob'' = Inl (ApiError 404 ''Job not found'')
   \<and> getById [alice_job None] ''job-1'' ''bob''
       = getById (filter (\<lambda>r. jobId r \<noteq> ''job-1'') [alice_job None]) ''job-1'' ''bob''"
proof -
  have other: "\<forall>r \<in> set [alice_job None]. jobId r = ''job-1'' \<longrightarrow> userId r \<noteq> ''bob''"
    by (simp add: alice_job_def)
  show ?thesis
    by (rule getById_NotFound_for_non_owner [OF other])
qed

section \<open>Listing jobs\<close>

lemma sortByCreatedAtDesc_sorted:
  "sorted_wrt (\<lambda>a b. createdAt b \<le> createdAt a) (sortByCreatedAtDesc ds)"
proof -
  have "sorted (map (\<lambda>r. - int (createdAt r)) (sortByCreatedAtDesc ds))"
    unfolding sortByCreatedAtDesc_def by (rule sorted_sort_key)
  then show ?thesis
    by (simp add: sorted_map)
qed

lemma set_sortByCreatedAtDesc: "set (sortByCreatedAtDesc ds) = set ds"
  by (simp add: sortByCreatedAtDesc_def)

text \<open>
  C8. For every owner and every list request: the page holds at most
  \<open>min(limit, 100)\<close> jobs when a limit other than 0 is given, and at most 20 when no
  limit, or the limit 0, is given (\<open>options.limit || 20\<close> takes 0 for absent); the
  offset defaults to 0; the jobs are in descending order of \<open>createdAt\<close> and are the
  owner's; \<open>total\<close> counts the jobs that match; and \<open>hasMore\<close> is true exactly when
  the offset plus the number of jobs returned is less than the total.
\<close>

theorem getAllForUser_page:
  "length (jobs (getAllForUser store uid options))
      \<le> (case opt_limit options of None \<Rightarrow> 20 | Some l \<Rightarrow> if l = 0 then 20 else min l 100)
   \<and> pg_offset (pagination (getAllForUser store uid options))
      = (case opt_offset options of None \<Rightarrow> 0 | Some n \<Rightarrow> n)
   \<and> sorted_wrt (\<lambda>a b. createdAt b \<le> createdAt a) (jobs (getAllForUser store uid options))
   \<and> pg_total (pagination (getAllForUser store uid options))
      = length (filter (matches uid options) store)
   \<and> hasMore (pagination (getAllForUser store uid options))
      = (pg_offset (pagination (getAllForUser store uid options))
           + length (jobs (getAllForUser store uid options))
         < pg_total (pagination (getAllForUser store uid options)))
   \<and> set (jobs (getAllForUser store uid options)) \<subseteq> {r \<in> set store. userId r = uid}"
proof -
  let ?lim = "min (or_nat (opt_limit options) 20) 100"
  let ?off = "or_nat (opt_offset options) 0"
  let ?all = "sortByCreatedAtDesc (filter (matches uid options) store)"
  have page: "jobs (getAllForUser store uid options) = take ?lim (drop ?off ?all)"
    by (simp add: getAllForUser_def Let_def)
  have lim: "?lim \<le> (case opt_limit options of None \<Rightarrow> 20 | Some l \<Rightarrow> if l = 0 then 20 else min l 100)"
    by (simp add: or_nat_def split: option.splits)
  have len: "length (jobs (getAllForUser store uid options))
      \<le> (case opt_limit options of None \<Rightarrow> 20 | Some l \<Rightarrow> if l = 0 then 20 else min l 100)"
    using lim unfolding page by (simp add: min.coboundedI2)
  have off: "pg_offset (pagination (getAllForUser store uid options))
      = (case opt_offset options of None \<Rightarrow> 0 | Some n \<Rightarrow> n)"
    by (simp add: getAllForUser_def Let_def or_nat_def split: option.splits)
  have srt: "sorted_wrt (\<lambda>a b. createdAt b \<le> createdAt a) (jobs (getAllForUser store uid options))"
    unfolding page by (intro sorted_wrt_take sorted_wrt_drop sortByCreatedAtDesc_sorted)
  have tot: "pg_total (pagination (getAllForUser store uid options))
      = length (filter (matches uid options) store)"
    by (simp add: getAllForUser_def Let_def)
  have more: "hasMore (pagination (getAllForUser store uid options))
      = (pg_offset (pagination (getAllForUser store uid options))
           + length (jobs (getAllForUser store uid options))
         < pg_total (pagination (getAllForUser store uid options)))"
    by (simp add: getAllForUser_def Let_def)
  have "set (take ?lim (drop ?off ?all)) \<subseteq> set ?all"
    by (meson set_take_subset set_drop_subset subset_trans)
  then have own: "set (jobs (getAllForUser store uid options)) \<subseteq> {r \<in> set store. userId r = uid}"
    unfolding page by (auto simp: set_sortByCreatedAtDesc matches_def)
  from len off srt tot more own show ?thesis by blast
qed

text \<open>
  An instance: three of alice's jobs, written at times 10, 30 and 20, listed with
  limit 2: the two newest come back, newest first, and there is more.
\<close>

theorem getAllForUser_page_witness:
  "map createdAt (jobs (getAllForUser
       [alice_job None, (alice_job None)\<lparr>jobId := ''job-2'', createdAt := 30\<rparr>,
        (alice_job None)\<lparr>jobId := ''job-3'', createdAt := 20\<rparr>]
       ''alice'' (no_options\<lparr>opt_limit := Some 2\<rparr>))) = [30, 20]
   \<and> hasMore (pagination (getAllForUser
       [alice_job None, (alice_job None)\<lparr>jobId := ''job-2'', createdAt := 30\<rparr>,
        (alice_job None)\<lparr>jobId := ''job-3'', createdAt := 20\<rparr>]
       ''alice'' (no_options\<lparr>opt_limit := Some 2\<rparr>)))"
proof -
  let ?store = "[alice_job None, (alice_job None)\<lparr>jobId := ''job-2'', createdAt := 30\<rparr>,
        (alice_job None)\<lparr>jobId := ''job-3'', createdAt := 20\<rparr>]"
  let ?page = "getAllForUser ?store ''alice'' (no_options\<lparr>opt_limit := Some 2\<rparr>)"
  have found: "map createdAt (jobs ?page) = [30, 20]"
    by (simp add: getAllForUser_def Let_def or_nat_def no_options_def matches_def
          sortByCreatedAtDesc_def alice_job_def)
  have tot: "length (filter (matches ''alice'' (no_options\<lparr>opt_limit := Some 2\<rparr>)) ?store) = 3"
    by (simp add: matches_def no_options_def alice_job_def)
  have off: "opt_offset (no_options\<lparr>opt_limit := Some 2\<rparr>) = None"
    by (simp add: no_options_def)
  have "length (jobs ?page) = 2"
    using found by (metis length_map length_Cons list.size(3) numeral_2_eq_2)
  with getAllForUser_page [of ?store "''alice''" "no_options\<lparr>opt_limit := Some 2\<rparr>"] tot off
  have "hasMore (pagination ?page)"
    by simp
  with found show ?thesis by simp
qed

text \<open>With the limit 0 the page is not empty: the default 20 applies.\<close>

theorem getAllForUser_limit_zero_counterexample:
  "\<not> length (jobs (getAllForUser [alice_job None] ''alice'' (no_options\<lparr>opt_limit := Some 0\<rparr>)))
       \<le> min 0 100
   \<and> pg_limit (pagination (getAllForUser [alice_job None] ''alice'' (no_options\<lparr>opt_limit := Some 0\<rparr>)))
       = 20"
  by (simp add: getAllForUser_def Let_def or_nat_def no_options_def matches_def
        sortByCreatedAtDesc_def alice_job_def)

section \<open>Cancelling a job\<close>

lemma cancel_not_PENDING:
  assumes "findOne (\<lambda>r. jobId r = jid \<and> userId r = uid) (jobStore s) = Some (i, job)"
      and "status job \<noteq> PENDING"
  shows "cancel s jid uid now = (Inl (ApiError 400 ''Can only cancel pending jobs''), s)"
  using assms by (simp add: cancel_def)

lemma cancel_PENDING:
  assumes "findOne (\<lambda>r. jobId r = jid \<and> userId r = uid) (jobStore s) = Some (i, job)"
      and "status job = PENDING"
  shows "fst (cancel s jid uid now) = Inr ''Job cancelled''"
    and "jobStore (snd (cancel s jid uid now)) =
           save (jobStore s) i
             (job\<lparr>status := FAILED, error := Some ''Cancelled by user'', completedAt := Some now\<rparr>)"
  using assms by (simp_all add: cancel_def Let_def)

text \<open>
  C6. For every job its owner can read: when its status is PENDING, \<open>cancel\<close>
  succeeds and the job then reads as the same document with \<open>status = FAILED\<close>,
  \<open>error = "Cancelled by user"\<close> and \<open>completedAt = now\<close>; when its status is
  COMPLETED, FAILED or PROCESSING, \<open>cancel\<close> fails with the 400 error and leaves
  collection and queue as they were; so \<open>cancel\<close> succeeds only on a PENDING job.
\<close>

theorem cancel_only_pending:
  assumes "getById (jobStore s) jid uid = Inr job"
  shows "(status job = PENDING \<longrightarrow>
            fst (cancel s jid uid now) = Inr ''Job cancelled''
          \<and> getById (jobStore (snd (cancel s jid uid now))) jid uid
              = Inr (job\<lparr>status := FAILED, error := Some ''Cancelled by user'', completedAt := Some now\<rparr>))
       \<and> (status job \<in> {COMPLETED, FAILED, PROCESSING} \<longrightarrow>
            cancel s jid uid now = (Inl (ApiError 400 ''Can only cancel pending jobs''), s))
       \<and> (\<forall>m. fst (cancel s jid uid now) = Inr m \<longrightarrow> status job = PENDING)"
proof -
  let ?q = "\<lambda>r. jobId r = jid \<and> userId r = uid"
  let ?job' = "job\<lparr>status := FAILED, error := Some ''Cancelled by user'', completedAt := Some now\<rparr>"
  from assms obtain i where f: "findOne ?q (jobStore s) = Some (i, job)"
    unfolding getById_Inr_iff by blast
  have seen: "getById (save (jobStore s) i ?job') jid uid = Inr ?job'"
    by (rule getById_save [OF f]) simp_all
  have pend: "fst (cancel s jid uid now) = Inr ''Job cancelled''
          \<and> getById (jobStore (snd (cancel s jid uid now))) jid uid = Inr ?job'"
    if "status job = PENDING"
    using cancel_PENDING [OF f that] seen by simp
  have other: "cancel s jid uid now = (Inl (ApiError 400 ''Can only cancel pending jobs''), s)"
    if "status job \<noteq> PENDING"
    by (rule cancel_not_PENDING [OF f that])
  have only: "status job = PENDING" if "fst (cancel s jid uid now) = Inr m" for m
  proof (rule ccontr)
    assume "status job \<noteq> PENDING"
    from other [OF this] that show False by simp
  qed
  have final: "cancel s jid uid now = (Inl (ApiError 400 ''Can only cancel pending jobs''), s)"
    if "status job \<in> {COMPLETED, FAILED, PROCESSING}"
  proof (rule other)
    from that show "status job \<noteq> PENDING" by auto
  qed
  show ?thesis
  proof (intro conjI impI allI)
    assume "status job = PENDING"
    from pend [OF this]
    show "fst (cancel s jid uid now) = Inr ''Job cancelled''"
      and "getById (jobStore (snd (cancel s jid uid now))) jid uid = Inr ?job'"
      by simp_all
  next
    assume "status job \<in> {COMPLETED, FAILED, PROCESSING}"
    then show "cancel s jid uid now = (Inl (ApiError 400 ''Can only cancel pending jobs''), s)"
      by (rule final)
  next
    fix m
    assume "fst (cancel s jid uid now) = Inr m"
    then show "status job = PENDING" by (rule only)
  qed
qed

text \<open>
  An instance of each case: alice cancels her pending job, and alice cancels the same
  job once it is completed.
\<close>

theorem cancel_only_pending_witness:
  "fst (cancel \<lparr>jobStore = [alice_job None], jobQueue = broker_up\<rparr> ''job-1'' ''alice'' 12)
     = Inr ''Job cancelled''
   \<and> getById (jobStore (snd (cancel \<lparr>jobStore = [alice_job None], jobQueue = broker_up\<rparr>
                               ''job-1'' ''alice'' 12))) ''job-1'' ''alice''
     = Inr ((alice_job None)\<lparr>status := FAILED, error := Some ''Cancelled by user'',
                              completedAt := Some 12\<rparr>)
   \<and> cancel \<lparr>jobStore = [(alice_job None)\<lparr>status := COMPLETED\<rparr>], jobQueue = broker_up\<rparr>
        ''job-1'' ''alice'' 12
     = (Inl (ApiError 400 ''Can only cancel pending jobs''),
        \<lparr>jobStore = [(alice_job None)\<lparr>status := COMPLETED\<rparr>], jobQueue = broker_up\<rparr>)"
proof -
  let ?s = "\<lparr>jobStore = [alice_job None], jobQueue = broker_up\<rparr>"
  let ?t = "\<lparr>jobStore = [(alice_job None)\<lparr>status := COMPLETED\<rparr>], jobQueue = broker_up\<rparr>"
  have gs: "getById (jobStore ?s) ''job-1'' ''alice'' = Inr (alice_job None)"
    by (simp add: getById_def alice_job_def)
  have ps: "status (alice_job None) = PENDING"
    by (simp add: alice_job_def)
  have gt: "getById (jobStore ?t) ''job-1'' ''alice'' = Inr ((alice_job None)\<lparr>status := COMPLETED\<rparr>)"
    by (simp add: getById_def alice_job_def)
  have pt: "status ((alice_job None)\<lparr>status := COMPLETED\<rparr>) \<in> {COMPLETED, FAILED, PROCESSING}"
    by simp
  from cancel_only_pending [OF gs, of 12] ps cancel_only_pending [OF gt, of 12] pt
  show ?thesis by blast
qed

section \<open>Retrying a job\<close>

lemma retry_not_FAILED:
  assumes "findOne (\<lambda>r. jobId r = jid \<and> userId r = uid) (jobStore s) = Some (i, job)"
      and "status job \<noteq> FAILED"
  shows "retry s jid uid = (Inl (ApiError 400 ''Can only retry failed jobs''), s)"
  using assms by (simp add: retry_def)

text \<open>What \<open>retry\<close> comes to on a FAILED job: the reset is saved, then the add decides.\<close>

lemma retry_FAILED:
  assumes "findOne (\<lambda>r. jobId r = jid \<and> userId r = uid) (jobStore s) = Some (i, job)"
      and "status job = FAILED"
  shows "retry s jid uid =
     (case addJob (jobQueue s)
             \<lparr>data_jobId = jobId job, data_type = type job, data_payload = payload job,
              data_userId = uid, data_idempotencyKey = idempotencyKey job\<rparr>
             (Some (priority job)) of
        Inl e \<Rightarrow>
          (Inl e,
           s\<lparr>jobStore := save (jobStore s) i
                (job\<lparr>status := PENDING, error := None, result := None, attempts := 0,
                      startedAt := None, completedAt := None\<rparr>)\<rparr>)
      | Inr (qid, q') \<Rightarrow>
          (Inr (job\<lparr>status := PENDING, error := None, result := None, attempts := 0,
                     startedAt := None, completedAt := None\<rparr>),
           \<lparr>jobStore = save (jobStore s) i
                (job\<lparr>status := PENDING, error := None, result := None, attempts := 0,
                      startedAt := None, completedAt := None\<rparr>),
            jobQueue = q'\<rparr>))"
  using assms by (simp add: retry_def Let_def)

lemma retry_Inr:
  assumes f: "findOne (\<lambda>r. jobId r = jid \<and> userId r = uid) (jobStore s) = Some (i, job)"
      and r: "retry s jid uid = (Inr j, s')"
  shows "status job = FAILED"
    and "j = job\<lparr>status := PENDING, error := None, result := None, attempts := 0,
                  startedAt := None, completedAt := None\<rparr>"
    and "jobStore s' = save (jobStore s) i j"
    and "\<exists>qid. addJob (jobQueue s)
             \<lparr>data_jobId = jobId job, data_type = type job, data_payload = payload job,
              data_userId = uid, data_idempotencyKey = idempotencyKey job\<rparr>
             (Some (priority job)) = Inr (qid, jobQueue s')"
proof -
  show st: "status job = FAILED"
  proof (rule ccontr)
    assume "status job \<noteq> FAILED"
    from retry_not_FAILED [OF f this] r show False by simp
  qed
  let ?dat = "\<lparr>data_jobId = jobId job, data_type = type job, data_payload = payload job,
              data_userId = uid, data_idempotencyKey = idempotencyKey job\<rparr>"
  obtain res where a: "addJob (jobQueue s) ?dat (Some (priority job)) = res"
    by simp
  show "j = job\<lparr>status := PENDING, error := None, result := None, attempts := 0,
                  startedAt := None, completedAt := None\<rparr>"
    using r unfolding retry_FAILED [OF f st] a
    by (cases res) (auto split: prod.splits)
  then show "jobStore s' = save (jobStore s) i j"
    using r unfolding retry_FAILED [OF f st] a
    by (cases res) (auto split: prod.splits)
  show "\<exists>qid. addJob (jobQueue s) ?dat (Some (priority job)) = Inr (qid, jobQueue s')"
    using r unfolding retry_FAILED [OF f st] a
    by (cases res) (auto split: prod.splits)
qed




text \<open>
  C10. For every job its owner can read, a successful \<open>retry\<close> returns a job with the
  same \<open>jobId\<close>, \<open>type\<close>, \<open>payload\<close>, \<open>priority\<close>, \<open>maxAttempts\<close>, \<open>idempotencyKey\<close>,
  \<open>userId\<close> and \<open>createdAt\<close>: it is the old document in which at most \<open>status\<close>,
  \<open>attempts\<close>, \<open>error\<close>, \<open>result\<close>, \<open>startedAt\<close> and \<open>completedAt\<close> have new values.
  It is the document the owner then reads. The collection keeps its length, and every
  place of it that held another document still holds it.
\<close>

theorem retry_frame:
  assumes "getById (jobStore s) jid uid = Inr job"
      and "retry s jid uid = (Inr job', s')"
  shows "jobId job' = jobId job \<and> type job' = type job \<and> payload job' = payload job
       \<and> priority job' = priority job \<and> maxAttempts job' = maxAttempts job
       \<and> idempotencyKey job' = idempotencyKey job \<and> userId job' = userId job
       \<and> createdAt job' = createdAt job
       \<and> job' = job\<lparr>status := status job', attempts := attempts job', error := error job',
                     result := result job', startedAt := startedAt job',
                     completedAt := completedAt job'\<rparr>
       \<and> getById (jobStore s') jid uid = Inr job'
       \<and> length (jobStore s') = length (jobStore s)
       \<and> (\<forall>k < length (jobStore s). jobStore s' ! k = jobStore s ! k \<or> jobStore s ! k = job)"
proof -
  let ?q = "\<lambda>r. jobId r = jid \<and> userId r = uid"
  let ?job' = "job\<lparr>status := PENDING, error := None, result := None, attempts := 0,
                     startedAt := None, completedAt := None\<rparr>"
  from assms(1) obtain i where f: "findOne ?q (jobStore s) = Some (i, job)"
    unfolding getById_Inr_iff by blast
  have at: "jobStore s ! i = job"
    using findOne_SomeD [OF f] by simp
  note R = retry_Inr [OF f assms(2)]
  have j: "job' = ?job'" by (rule R(2))
  have s': "jobStore s' = save (jobStore s) i ?job'"
    using R(3) unfolding j .
  have fields: "jobId ?job' = jobId job \<and> type ?job' = type job \<and> payload ?job' = payload job
       \<and> priority ?job' = priority job \<and> maxAttempts ?job' = maxAttempts job
       \<and> idempotencyKey ?job' = idempotencyKey job \<and> userId ?job' = userId job
       \<and> createdAt ?job' = createdAt job"
    by simp
  have only: "?job' = job\<lparr>status := status ?job', attempts := attempts ?job', error := error ?job',
                     result := result ?job', startedAt := startedAt ?job',
                     completedAt := completedAt ?job'\<rparr>"
    by simp
  have "getById (save (jobStore s) i ?job') jid uid = Inr ?job'"
    by (rule getById_save [OF f]) simp_all
  then have seen: "getById (jobStore s') jid uid = Inr ?job'"
    by (simp add: s')
  have len: "length (jobStore s') = length (jobStore s)"
    by (simp add: s' save_def)
  have others: "\<forall>k < length (jobStore s). jobStore s' ! k = jobStore s ! k \<or> jobStore s ! k = job"
  proof (intro allI impI)
    fix k
    assume "k < length (jobStore s)"
    show "jobStore s' ! k = jobStore s ! k \<or> jobStore s ! k = job"
      using at by (cases "k = i") (simp_all add: s' save_def)
  qed
  from fields only seen len others show ?thesis
    unfolding j by blast
qed

text \<open>
  An instance: bob's cancelled job stands before alice's failed one in the collection;
  alice retries hers.
\<close>

theorem retry_frame_witness:
  "map (\<lambda>r. (jobId r, userId r, priority r, maxAttempts r, createdAt r, status r, attempts r))
     (jobStore (snd (retry
        \<lparr>jobStore = [(alice_job None)\<lparr>jobId := ''job-0'', userId := ''bob'', status := FAILED\<rparr>,
                     (alice_job None)\<lparr>status := FAILED, error := Some ''boom'', attempts := 3\<rparr>],
         jobQueue = broker_up\<rparr> ''job-1'' ''alice'')))
   = [(''job-0'', ''bob'', 8, 3, 10, FAILED, 0), (''job-1'', ''alice'', 8, 3, 10, PENDING, 0)]
   \<and> jobId (alice_job None) = ''job-1'' \<and> priority (alice_job None) = 8"
proof -
  let ?bob = "(alice_job None)\<lparr>jobId := ''job-0'', userId := ''bob'', status := FAILED\<rparr>"
  let ?failed = "(alice_job None)\<lparr>status := FAILED, error := Some ''boom'', attempts := 3\<rparr>"
  let ?s = "\<lparr>jobStore = [?bob, ?failed], jobQueue = broker_up\<rparr>"
  have g: "getById (jobStore ?s) ''job-1'' ''alice'' = Inr ?failed"
    by (simp add: getById_def alice_job_def)
  have r: "retry ?s ''job-1'' ''alice'' = (Inr (alice_job None), snd (retry ?s ''job-1'' ''alice''))"
    by (simp add: retry_def Let_def addJob_def Queue_add_def holds_def whole_def
          default_priority_def save_def alice_job_def broker_up_def)
  from retry_frame [OF g r]
  have "jobId (alice_job None) = jobId ?failed \<and> priority (alice_job None) = priority ?failed"
    by blast
  then have same: "jobId (alice_job None) = ''job-1'' \<and> priority (alice_job None) = 8"
    by (simp add: alice_job_def)
  have "map (\<lambda>r. (jobId r, userId r, priority r, maxAttempts r, createdAt r, status r, attempts r))
     (jobStore (snd (retry ?s ''job-1'' ''alice'')))
   = [(''job-0'', ''bob'', 8, 3, 10, FAILED, 0), (''job-1'', ''alice'', 8, 3, 10, PENDING, 0)]"
    by (simp add: retry_def Let_def addJob_def Queue_add_def holds_def whole_def
          default_priority_def save_def alice_job_def broker_up_def)
  with same show ?thesis by blast
qed

section \<open>A failed attempt\<close>

text \<open>
  C2. For every claimed job whose document is in the collection and whose work
  function throws: after the attempt the document has \<open>status = FAILED\<close>, the
  failure message as \<open>error\<close> and \<open>completedAt = now\<close>, with \<open>attempts\<close> at
  \<open>attemptsMade + 1\<close> and \<open>startedAt\<close> at the time of the claim. This is so on every
  failed attempt, whatever \<open>attempts\<close> and \<open>maxAttempts\<close> are: the listener does not
  compare them, and the status does not stay at its last value while the broker waits
  to run the job again.
\<close>

theorem failed_attempt_sets_FAILED:
  assumes "findOne (\<lambda>r. jobId r = data_jobId (job_data job)) store = Some (i, r)"
  shows "attempt store job (Throws msg) t1 t2 =
           store[i := r\<lparr>startedAt := Some t1, attempts := attemptsMade job + 1,
                         status := FAILED, error := Some msg, completedAt := Some t2\<rparr>]"
proof -
  let ?q = "\<lambda>r. jobId r = data_jobId (job_data job)"
  let ?r1 = "r\<lparr>status := PROCESSING, startedAt := Some t1, attempts := attemptsMade job + 1\<rparr>"
  have q: "jobId r = data_jobId (job_data job)"
    using findOne_SomeD [OF assms] by simp
  then have q1: "jobId ?r1 = data_jobId (job_data job)" by simp
  have c: "processJob_claim store job t1 = store[i := ?r1]"
    unfolding processJob_claim_def by (rule findOneAndUpdate_found [OF assms])
  have "findOne ?q (save store i ?r1) = Some (i, ?r1)"
    by (rule findOne_save) (rule assms, rule q1)
  then have f1: "findOne ?q (store[i := ?r1]) = Some (i, ?r1)"
    by (simp add: save_def)
  have "on_failed (store[i := ?r1]) (Some job) msg t2
          = store[i := ?r1, i := ?r1\<lparr>status := FAILED, error := Some msg, completedAt := Some t2\<rparr>]"
    unfolding on_failed_def option.case by (rule findOneAndUpdate_found [OF f1])
  then show ?thesis
    by (simp add: attempt_def processJob_def Let_def c)
qed

text \<open>An instance: the first attempt on alice's pending job throws.\<close>

theorem failed_attempt_sets_FAILED_witness:
  "attempt [alice_job None] (bull_job 0) (Throws ''Random simulated processing failure'') 20 30
     = [(alice_job None)\<lparr>startedAt := Some 20, attempts := 1, status := FAILED,
                          error := Some ''Random simulated processing failure'',
                          completedAt := Some 30\<rparr>]"
proof -
  have f: "findOne (\<lambda>r. jobId r = data_jobId (job_data (bull_job 0))) [alice_job None]
             = Some (0, alice_job None)"
    by (simp add: bull_job_def alice_job_def)
  have a: "attemptsMade (bull_job 0) = 0"
    by (simp add: bull_job_def)
  from failed_attempt_sets_FAILED [OF f, of "''Random simulated processing failure''" 20 30]
  show ?thesis
    by (simp add: a)
qed

text \<open>
  The first of three attempts throws: the document is FAILED although \<open>attempts\<close>, 1,
  is below \<open>maxAttempts\<close>, 3.
\<close>

theorem failed_attempt_counterexample:
  "map (\<lambda>r. (status r, attempts r, maxAttempts r))
     (attempt [alice_job None] (bull_job 0) (Throws ''Random simulated processing failure'') 20 30)
   = [(FAILED, 1, 3)]"
  by (simp add: attempt_def processJob_def processJob_claim_def on_failed_def
        findOneAndUpdate_def save_def Let_def bull_job_def alice_job_def)

section \<open>The bound on attempts\<close>

lemma create_bounded:
  assumes "\<forall>r \<in> set (jobStore s). attempts_bounded r"
  shows "\<forall>r \<in> set (jobStore (snd (create s uid input uuid now))). attempts_bounded r"
proof -
  have n: "attempts_bounded (newJob uid input uuid now)"
    by (simp add: attempts_bounded_def newJob_def)
  have "jobStore (snd (create s uid input uuid now)) = jobStore s
      \<or> jobStore (snd (create s uid input uuid now)) = jobStore s @ [newJob uid input uuid now]"
    by (simp add: create_def Job_create_def
             split: option.splits prod.splits sum.splits)
  with assms n show ?thesis by auto
qed

lemma cancel_bounded:
  assumes "\<forall>r \<in> set (jobStore s). attempts_bounded r"
  shows "\<forall>r \<in> set (jobStore (snd (cancel s jid uid now))). attempts_bounded r"
proof (cases "findOne (\<lambda>r. jobId r = jid \<and> userId r = uid) (jobStore s)")
  case None
  then show ?thesis using assms by (simp add: cancel_def)
next
  case (Some a)
  obtain i job where a: "a = (i, job)" by (cases a)
  let ?job' = "job\<lparr>status := FAILED, error := Some ''Cancelled by user'', completedAt := Some now\<rparr>"
  from Some a have "job \<in> set (jobStore s)" by (auto dest: findOne_mem)
  with assms have b: "attempts_bounded ?job'" by (simp add: attempts_bounded_def)
  have sub: "set ((jobStore s)[i := ?job']) \<subseteq> insert ?job' (set (jobStore s))"
    by (rule set_update_subset_insert)
  have "jobStore (snd (cancel s jid uid now)) = jobStore s
      \<or> jobStore (snd (cancel s jid uid now)) = (jobStore s)[i := ?job']"
    using Some a by (simp add: cancel_def Let_def save_def)
  with assms b sub show ?thesis by auto
qed

lemma retry_bounded:
  assumes "\<forall>r \<in> set (jobStore s). attempts_bounded r"
  shows "\<forall>r \<in> set (jobStore (snd (retry s jid uid))). attempts_bounded r"
proof (cases "findOne (\<lambda>r. jobId r = jid \<and> userId r = uid) (jobStore s)")
  case None
  then show ?thesis using assms by (simp add: retry_def)
next
  case (Some a)
  obtain i job where a: "a = (i, job)" by (cases a)
  let ?job' = "job\<lparr>status := PENDING, error := None, result := None, attempts := 0,
                     startedAt := None, completedAt := None\<rparr>"
  from Some a have "job \<in> set (jobStore s)" by (auto dest: findOne_mem)
  with assms have b: "attempts_bounded ?job'" by (simp add: attempts_bounded_def)
  have sub: "set ((jobStore s)[i := ?job']) \<subseteq> insert ?job' (set (jobStore s))"
    by (rule set_update_subset_insert)
  have "jobStore (snd (retry s jid uid)) = jobStore s
      \<or> jobStore (snd (retry s jid uid)) = (jobStore s)[i := ?job']"
    using Some a by (simp add: retry_def Let_def save_def split: sum.splits prod.splits)
  with assms b sub show ?thesis by auto
qed

lemma step_bounded:
  assumes inv: "\<forall>r \<in> set (jobStore s). attempts_bounded r" and adm: "admitted e"
  shows "\<forall>r \<in> set (jobStore (step s e)). attempts_bounded r"
proof (cases e)
  case (Submit uid input uuid now)
  then show ?thesis using create_bounded [OF inv] by simp
next
  case (Cancel jid uid now)
  then show ?thesis using cancel_bounded [OF inv] by simp
next
  case (Retry jid uid)
  then show ?thesis using retry_bounded [OF inv] by simp
next
  case (Claim job now)
  with adm have "attemptsMade job + 1 \<le> 3"
    by (simp add: defaultJobOptions_attempts_def)
  then have "\<forall>r \<in> set (processJob_claim (jobStore s) job now). attempts_bounded r"
    unfolding processJob_claim_def
    by (intro findOneAndUpdate_pres inv) (simp add: attempts_bounded_def)
  with Claim show ?thesis by simp
next
  case (Complete job res now)
  have "\<forall>r \<in> set (processJob_complete (jobStore s) job res now). attempts_bounded r"
    unfolding processJob_complete_def
    by (intro findOneAndUpdate_pres inv) (simp add: attempts_bounded_def)
  with Complete show ?thesis by simp
next
  case (Fail job msg now)
  have "\<forall>r \<in> set (on_failed (jobStore s) (Some job) msg now). attempts_bounded r"
    unfolding on_failed_def option.case
    by (intro findOneAndUpdate_pres inv) (simp add: attempts_bounded_def)
  with Fail show ?thesis by simp
next
  case (Broker q)
  then show ?thesis using inv by simp
qed

lemma run_bounded:
  assumes "\<forall>r \<in> set (jobStore s). attempts_bounded r" and "\<forall>e \<in> set es. admitted e"
  shows "\<forall>r \<in> set (jobStore (run s es)). attempts_bounded r"
  using assms
proof (induction es arbitrary: s)
  case Nil
  then show ?case by (simp add: run_def)
next
  case (Cons e es)
  from Cons.prems have "\<forall>r \<in> set (jobStore (step s e)). attempts_bounded r"
    by (intro step_bounded) simp_all
  from Cons.IH [OF this] Cons.prems(2) show ?case
    by (simp add: run_def)
qed

text \<open>
  C5. Start with an empty collection and let submissions, cancellations, retries, the
  worker's claims, completions and failures, and changes of the broker's entries
  happen in any order and number, a claim only for a job object whose \<open>attemptsMade\<close>
  is below the queue's \<open>attempts: 3\<close>. Then every document of the collection has
  \<open>attempts \<le> maxAttempts\<close>, after every event.
\<close>

theorem attempts_le_maxAttempts:
  assumes "\<forall>e \<in> set es. admitted e" and "r \<in> set (jobStore (run (initial q) es))"
  shows "attempts r \<le> maxAttempts r"
proof -
  have "\<forall>r \<in> set (jobStore (initial q)). attempts_bounded r"
    by (simp add: initial_def)
  from run_bounded [OF this assms(1)] assms(2) show ?thesis
    by (auto simp: attempts_bounded_def)
qed

text \<open>
  An instance: alice submits a job; its first attempt fails; she retries it while the
  broker still holds the job for its third attempt, which is then claimed.
\<close>

theorem attempts_le_maxAttempts_witness:
  "map (\<lambda>r. (jobId r, status r, attempts r, maxAttempts r))
     (jobStore (run (initial broker_up)
        [Submit ''alice'' (export_input None) ''job-1'' 10, Claim (bull_job 0) 20,
         Fail (bull_job 0) ''boom'' 30, Retry ''job-1'' ''alice'', Claim (bull_job 2) 40]))
     = [(''job-1'', PROCESSING, 3, 3)]
   \<and> attempts ((newJob ''alice'' (export_input None) ''job-1'' 10)
                 \<lparr>status := PROCESSING, attempts := 3, startedAt := Some 40\<rparr>)
      \<le> maxAttempts ((newJob ''alice'' (export_input None) ''job-1'' 10)
                 \<lparr>status := PROCESSING, attempts := 3, startedAt := Some 40\<rparr>)"
proof -
  let ?es = "[Submit ''alice'' (export_input None) ''job-1'' 10, Claim (bull_job 0) 20,
         Fail (bull_job 0) ''boom'' 30, Retry ''job-1'' ''alice'', Claim (bull_job 2) 40]"
  let ?r = "(newJob ''alice'' (export_input None) ''job-1'' 10)
                 \<lparr>status := PROCESSING, attempts := 3, startedAt := Some 40\<rparr>"
  have adm: "\<forall>e \<in> set ?es. admitted e"
    by (simp add: defaultJobOptions_attempts_def bull_job_def)
  have final: "jobStore (run (initial broker_up) ?es) = [?r]"
    by (simp add: run_def initial_def broker_up_def create_def retry_def truthy_def
          Job_create_def newJob_def or_number_def addJob_def Queue_add_def holds_def whole_def default_priority_def Let_def
          processJob_claim_def on_failed_def findOneAndUpdate_def save_def
          export_input_def bull_job_def)
  then have mem: "?r \<in> set (jobStore (run (initial broker_up) ?es))"
    by simp
  from attempts_le_maxAttempts [OF adm mem]
  have "attempts ?r \<le> maxAttempts ?r" .
  moreover have "map (\<lambda>r. (jobId r, status r, attempts r, maxAttempts r))
     (jobStore (run (initial broker_up) ?es)) = [(''job-1'', PROCESSING, 3, 3)]"
    unfolding final by (simp add: newJob_def)
  ultimately show ?thesis by blast
qed


end
